theory Spec2Isabelle
  imports Complex_Main "HOL-Library.AList" "HOL-Library.Sublist"
begin

section \<open>Data model\<close>

text \<open>
  The bot of \<^verbatim>\<open>src/index.js\<close> keeps three pieces of process-wide state that the
  properties below talk about: the JSON documents on disk, the per-channel conversation
  memory \<^verbatim>\<open>memoryMap\<close>, and the flag set \<^verbatim>\<open>maggots\<close>. Everything the
  platform, the clock, the random number generator and the generation backend contribute is
  an explicit input of the model.

  Strings are byte lists; \<^verbatim>\<open>toLowerCase\<close> and \<^verbatim>\<open>trim\<close> are modelled on
  ASCII. Identifiers of users are the strings the platform hands out. Identifiers of channels
  are snowflakes, decimal renderings of natural numbers, and \<^verbatim>\<open>memoryMap\<close> is a plain
  object indexed by them: the model indexes it by the number, so that the inherited
  properties of a JavaScript object are not keys.
\<close>

type_synonym path = string
type_synonym fs = "path \<rightharpoonup> string"
type_synonym user_id = string
type_synonym channel_id = nat

record turn =
  turn_speaker :: string
  turn_text :: string

type_synonym memory = "channel_id \<rightharpoonup> turn list"

record store =
  memoryMap :: memory
  files :: fs

section \<open>Persistent key-value store\<close>

text \<open>
  A file system is a map from paths to contents. \<^verbatim>\<open>JSON.stringify\<close> and
  \<^verbatim>\<open>JSON.parse\<close> belong to the runtime, not to the repository: they are the parameters
  \<open>stringify\<close> and \<open>parse\<close> (\<open>None\<close> when parsing throws).

  \<^verbatim>\<open>fs.writeFileSync\<close> gives no atomicity: while it runs, the target holds some
  prefix of the data. \<open>writeFileSync_trace\<close> lists the states a reader can see during
  the call, the last one being the state after it. \<^verbatim>\<open>fs.renameSync\<close> is one step,
  and throws (\<open>None\<close>) when the source path does not exist. Failures of the operating
  system itself (a full disk, a missing permission) are outside the model.
\<close>

definition writeFileSync :: "fs \<Rightarrow> path \<Rightarrow> string \<Rightarrow> fs" where
  "writeFileSync disk p content = disk(p \<mapsto> content)"

definition writeFileSync_trace :: "fs \<Rightarrow> path \<Rightarrow> string \<Rightarrow> fs list" where
  "writeFileSync_trace disk p content = map (\<lambda>written. disk(p \<mapsto> written)) (prefixes content)"

definition renameSync :: "fs \<Rightarrow> path \<Rightarrow> path \<Rightarrow> fs option" where
  "renameSync disk src dst =
     (case disk src of
        None \<Rightarrow> None
      | Some content \<Rightarrow> Some ((disk(src := None))(dst \<mapsto> content)))"

definition readJsonSafe :: "(string \<Rightarrow> 'v option) \<Rightarrow> fs \<Rightarrow> path \<Rightarrow> 'v \<Rightarrow> 'v" where
  "readJsonSafe parse disk filePath fallback =
     (case disk filePath of
        None \<Rightarrow> fallback
      | Some content \<Rightarrow> (case parse content of None \<Rightarrow> fallback | Some v \<Rightarrow> v))"

definition writeJsonAtomic :: "('v \<Rightarrow> string) \<Rightarrow> fs \<Rightarrow> path \<Rightarrow> 'v \<Rightarrow> fs option" where
  "writeJsonAtomic stringify disk filePath obj =
     (let tmp = filePath @ ''.tmp''
      in renameSync (writeFileSync disk tmp (stringify obj)) tmp filePath)"

text \<open>
  Every state of the disk that can be observed while \<open>writeJsonAtomic\<close> runs, in order:
  the disk before the call, the states during the write of the temporary file, and the
  state after the rename when the rename succeeds.
\<close>

definition writeJsonAtomic_trace :: "('v \<Rightarrow> string) \<Rightarrow> fs \<Rightarrow> path \<Rightarrow> 'v \<Rightarrow> fs list" where
  "writeJsonAtomic_trace stringify disk filePath obj =
     (let tmp = filePath @ ''.tmp''
      in disk # writeFileSync_trace disk tmp (stringify obj)
         @ (case writeJsonAtomic stringify disk filePath obj of None \<Rightarrow> [] | Some d \<Rightarrow> [d]))"

section \<open>Conversation memory\<close>

text \<open>
  \<open>slice_from start xs\<close> is \<^verbatim>\<open>xs.slice(start)\<close> for an integral \<open>start\<close>: a
  negative start counts from the end and is clamped at the beginning, a start beyond the
  end gives the empty array. \<^verbatim>\<open>slice(-0)\<close> is \<^verbatim>\<open>slice(0)\<close>, the whole array.

  \<open>MAX_MEMORY_ENTRIES\<close> is \<^verbatim>\<open>Number(process.env.MAX_MEMORY_ENTRIES || 14)\<close>: a
  parameter of the model, an integer.
\<close>

definition slice_from :: "int \<Rightarrow> 'a list \<Rightarrow> 'a list" where
  "slice_from start xs =
     (let len = int (length xs);
          k = (if start < 0 then max (len + start) 0 else min start len)
      in drop (nat k) xs)"

definition MEMORY_FILE :: path where
  "MEMORY_FILE = ''data/memory.json''"

definition saveMemory :: "(memory \<Rightarrow> string) \<Rightarrow> store \<Rightarrow> store option" where
  "saveMemory stringify st =
     map_option (\<lambda>d. st\<lparr>files := d\<rparr>)
       (writeJsonAtomic stringify (files st) MEMORY_FILE (memoryMap st))"

definition appendToMemory ::
  "(memory \<Rightarrow> string) \<Rightarrow> int \<Rightarrow> store \<Rightarrow> channel_id \<Rightarrow> string \<Rightarrow> string \<Rightarrow> store option" where
  "appendToMemory stringify MAX_MEMORY_ENTRIES st channelId speaker text_in =
     (let arr = (case memoryMap st channelId of None \<Rightarrow> [] | Some a \<Rightarrow> a);
          pushed = arr @ [\<lparr>turn_speaker = speaker, turn_text = text_in\<rparr>];
          trimmed = (if int (length pushed) > MAX_MEMORY_ENTRIES
                     then slice_from (- MAX_MEMORY_ENTRIES) pushed else pushed)
      in saveMemory stringify (st\<lparr>memoryMap := (memoryMap st)(channelId \<mapsto> trimmed)\<rparr>))"

definition getMemory :: "store \<Rightarrow> channel_id \<Rightarrow> turn list" where
  "getMemory st channelId = (case memoryMap st channelId of None \<Rightarrow> [] | Some a \<Rightarrow> a)"

text \<open>A finite sequence of \<open>appendToMemory\<close> calls, stopping at the first call that throws.\<close>

fun appendAll ::
  "(memory \<Rightarrow> string) \<Rightarrow> int \<Rightarrow> store \<Rightarrow> (channel_id \<times> string \<times> string) list \<Rightarrow> store option" where
  "appendAll stringify M st [] = Some st"
| "appendAll stringify M st ((c, s, t) # calls) =
     (case appendToMemory stringify M st c s t of
        None \<Rightarrow> None
      | Some st' \<Rightarrow> appendAll stringify M st' calls)"

text \<open>The turns a sequence of calls appends to one channel, in arrival order.\<close>

fun turns_for :: "channel_id \<Rightarrow> (channel_id \<times> string \<times> string) list \<Rightarrow> turn list" where
  "turns_for c [] = []"
| "turns_for c ((c', s, t) # calls) =
     (if c' = c then \<lparr>turn_speaker = s, turn_text = t\<rparr> # turns_for c calls
      else turns_for c calls)"

text \<open>The last \<open>n\<close> elements of a list, in their order.\<close>

definition lastn :: "nat \<Rightarrow> 'a list \<Rightarrow> 'a list" where
  "lastn n xs = drop (length xs - n) xs"

section \<open>Strings\<close>

text \<open>
  The string methods the handlers use. \<open>is_space\<close> is the ASCII part of what
  \<^verbatim>\<open>trim\<close> and the regular expression class \<^verbatim>\<open>\s\<close> strip; \<open>toLowerCase\<close>
  maps the ASCII capitals and leaves every other byte alone.
\<close>

definition is_space :: "char \<Rightarrow> bool" where
  "is_space c = (c \<in> set [CHR '' '', CHR 0x09, CHR 0x0A, CHR 0x0B, CHR 0x0C, CHR 0x0D])"

definition is_digit :: "char \<Rightarrow> bool" where
  "is_digit c = (c \<in> set ''0123456789'')"

definition trim :: "string \<Rightarrow> string" where
  "trim s = rev (dropWhile is_space (rev (dropWhile is_space s)))"

definition toLowerChar :: "char \<Rightarrow> char" where
  "toLowerChar c =
     (case map_of (zip ''ABCDEFGHIJKLMNOPQRSTUVWXYZ'' ''abcdefghijklmnopqrstuvwxyz'') c of
        None \<Rightarrow> c
      | Some l \<Rightarrow> l)"

definition toLowerCase :: "string \<Rightarrow> string" where
  "toLowerCase s = map toLowerChar s"

fun startsWith :: "string \<Rightarrow> string \<Rightarrow> bool" where
  "startsWith s [] = True"
| "startsWith [] (p # ps) = False"
| "startsWith (c # cs) (p # ps) = (c = p \<and> startsWith cs ps)"

fun includes_str :: "string \<Rightarrow> string \<Rightarrow> bool" where
  "includes_str [] k = (k = [])"
| "includes_str (c # cs) k = (startsWith (c # cs) k \<or> includes_str cs k)"

text \<open>
  \<^verbatim>\<open>s.split(/\s+/)\<close>: the pieces between maximal runs of white space; a string
  with no white space is its only piece, and a leading or trailing run leaves an empty
  piece at that end.
\<close>

fun split_ws :: "string \<Rightarrow> string list" where
  "split_ws [] = [[]]"
| "split_ws (c # cs) =
     (if is_space c
      then (case cs of
              [] \<Rightarrow> [[], []]
            | d # ds \<Rightarrow> if is_space d then split_ws cs else [] # split_ws cs)
      else (case split_ws cs of
              [] \<Rightarrow> [[c]]
            | w # ws \<Rightarrow> (c # w) # ws))"

text \<open>
  \<^verbatim>\<open>mention.match(/<@!?([0-9]+)>/)\<close>: the first group of the leftmost match, or
  \<open>None\<close> when nothing matches. At a given position the match is forced: the optional
  \<^verbatim>\<open>!\<close> is taken when present (a digit must follow otherwise), and the digits are the
  longest run (the closing \<^verbatim>\<open>>\<close> is not a digit).
\<close>

definition match_mention_here :: "string \<Rightarrow> string option" where
  "match_mention_here s =
     (if startsWith s ''<@''
      then (let r = drop 2 s;
                r' = (if startsWith r ''!'' then drop 1 r else r);
                digits = takeWhile is_digit r'
            in if digits \<noteq> [] \<and> startsWith (dropWhile is_digit r') ''>''
               then Some digits else None)
      else None)"

fun match_mention :: "string \<Rightarrow> string option" where
  "match_mention [] = None"
| "match_mention (c # cs) =
     (case match_mention_here (c # cs) of
        Some userId \<Rightarrow> Some userId
      | None \<Rightarrow> match_mention cs)"

section \<open>Environment of one event\<close>

text \<open>
  What the world contributes while one event is handled: the values the coming calls of
  \<^verbatim>\<open>Math.random()\<close> return, in order (a number of the interval from 0 to 1, as a
  rational); the value of \<^verbatim>\<open>Date.now()\<close>; whether \<^verbatim>\<open>setNickname\<close> resolves
  or throws; whether \<^verbatim>\<open>guild.members.fetch\<close> resolves or throws. A handler makes at
  most one call of \<^verbatim>\<open>setNickname\<close>. What a handler does to the outside is the list of
  its actions, in order; a \<open>SetNickname\<close> action is the attempt, whether or not it
  succeeds. Sending a reply is an output of the model and cannot fail in it.
\<close>

type_synonym random_source = "nat \<Rightarrow> rat"

definition draw :: "random_source \<Rightarrow> rat \<times> random_source" where
  "draw rnd = (rnd 0, \<lambda>i. rnd (Suc i))"

record env =
  rnd :: random_source
  now :: nat
  nick_ok :: bool
  fetch_ok :: bool

datatype action =
    SetNickname user_id "string option"
  | Reply string
  | Warn string
  | OtherCommand string

record guild_member =
  member_id :: user_id
  nickname :: "string option"

record message =
  msg_author_id :: user_id
  msg_author_bot :: bool
  msg_content :: string
  msg_channel_id :: channel_id
  msg_guild :: bool
  msg_member :: "guild_member option"

record config =
  CREATOR_ID :: string
  RANDOM_DEGRADE_CHANCE :: rat
  RANDOM_CHIME_CHANCE :: rat

section \<open>Moderation state machine\<close>

text \<open>
  \<^verbatim>\<open>maggots\<close> is a JavaScript \<^verbatim>\<open>Map\<close> from user identifiers to entries: an
  association list in insertion order. \<^verbatim>\<open>Map.set\<close> overwrites the value of a key
  that is present, where it stands, and adds an absent key at the end; \<^verbatim>\<open>Map.delete\<close>
  removes the key.
\<close>

record maggot_entry =
  name :: string
  at_time :: nat

type_synonym maggots = "(user_id \<times> maggot_entry) list"

definition has :: "maggots \<Rightarrow> user_id \<Rightarrow> bool" where
  "has maggots userId = (map_of maggots userId \<noteq> None)"

definition MAGGOT_TRIGGERS :: "string list" where
  "MAGGOT_TRIGGERS =
     [''shut up'', ''stfu'', ''fuck you'', ''useless'', ''worthless'', ''dumb bot'', ''stupid bot'']"

definition DEGRADE_NAMES :: "string list" where
  "DEGRADE_NAMES = [''maggot'', ''worm'', ''grunt'', ''boot'', ''peasant'', ''slug'', ''private'']"

text \<open>
  \<open>markMaggot\<close>: nothing happens for a member who is flagged already. Otherwise the
  rename is attempted; the entry is stored after the rename, inside the same
  \<^verbatim>\<open>try\<close>, so a rename that throws skips it and only a warning is logged. A label
  left out defaults to \<^verbatim>\<open>"maggot"\<close>.
\<close>

definition markMaggot ::
  "maggots \<Rightarrow> guild_member \<Rightarrow> string option \<Rightarrow> env \<Rightarrow> maggots \<times> action list" where
  "markMaggot maggots member label_arg e =
     (let label = (case label_arg of None \<Rightarrow> ''maggot'' | Some l \<Rightarrow> l)
      in if has maggots (member_id member) then (maggots, [])
         else if nick_ok e
         then (AList.update (member_id member) \<lparr>name = label, at_time = now e\<rparr> maggots,
               [SetNickname (member_id member) (Some label)])
         else (maggots,
               [SetNickname (member_id member) (Some label),
                Warn (''Could not set nickname '' @ label @ '' for '' @ member_id member)]))"

definition unmarkMaggot :: "maggots \<Rightarrow> guild_member \<Rightarrow> maggots" where
  "unmarkMaggot maggots member = AList.delete (member_id member) maggots"

text \<open>
  The amnesty branch of \<open>handleCommand\<close>, with the dispatch in front of it. The
  branches of the other commands (\<^verbatim>\<open>loadlog\<close>, \<^verbatim>\<open>alias\<close>, \<^verbatim>\<open>setalias\<close>,
  \<^verbatim>\<open>unalias\<close>, \<^verbatim>\<open>nick\<close>, \<^verbatim>\<open>createchannel\<close>, \<^verbatim>\<open>parse\<close>) never read or
  write the flag set; each is the single action \<open>OtherCommand\<close>. The array that
  \<^verbatim>\<open>split\<close> returns is never empty. \<open>amnesty_reset\<close> is the \<^verbatim>\<open>try\<close> block
  of the branch: the member is fetched when the message comes from a guild and the nickname
  is set to \<^verbatim>\<open>null\<close>; a failure of either call is logged and nothing more.
\<close>

definition amnesty_reset :: "message \<Rightarrow> user_id \<Rightarrow> env \<Rightarrow> action list" where
  "amnesty_reset message userId e =
     (if msg_guild message
      then (if fetch_ok e
            then SetNickname userId None
                 # (if nick_ok e then [] else [Warn (''Could not reset nickname for '' @ userId)])
            else [Warn (''Could not reset nickname for '' @ userId)])
      else [])"

definition handleCommand ::
  "config \<Rightarrow> maggots \<Rightarrow> message \<Rightarrow> string \<Rightarrow> env \<Rightarrow> maggots \<times> action list" where
  "handleCommand cfg maggots message raw e =
     (case split_ws (trim raw) of
        [] \<Rightarrow> (maggots, [])
      | cmd # rest \<Rightarrow>
          (let lower = toLowerCase cmd;
               isCreator = (CREATOR_ID cfg \<noteq> [] \<and> msg_author_id message = CREATOR_ID cfg)
           in if lower \<in> set [''loadlog'', ''alias'', ''setalias'', ''unalias'', ''nick'',
                                ''createchannel'', ''parse'']
              then (maggots, [OtherCommand lower])
              else if lower = ''amnesty'' \<or> lower = ''forgive''
              then (if \<not> isCreator
                    then (maggots, [Reply ''Only the creator can forgive a maggot.''])
                    else (case rest of
                            [] \<Rightarrow> (maggots, [Reply ''Usage: !amnesty @user''])
                          | mention # _ \<Rightarrow>
                              (case match_mention mention of
                                 None \<Rightarrow> (maggots, [Reply ''Please mention a user to grant amnesty.''])
                               | Some userId \<Rightarrow>
                                   if \<not> has maggots userId
                                   then (maggots,
                                         [Reply ''That user is not currently marked as a maggot.''])
                                   else (unmarkMaggot maggots \<lparr>member_id = userId, nickname = None\<rparr>,
                                         amnesty_reset message userId e
                                         @ [Reply (''Amnesty granted to '' @ mention
                                                   @ ''. They are no longer a maggot.'')]))))
              else (maggots, [Reply (''Unknown command: '' @ cmd)])))"

text \<open>
  The classification of a message that is not a command, for a member of a guild: whether
  a label is to be assigned, and the random source that is left. The conjunction in the
  source is evaluated left to right and stops at the first false part, so
  \<^verbatim>\<open>Math.random()\<close> is called only when the author is not flagged and no trigger
  phrase matched.
\<close>

definition shouldDegrade ::
  "rat \<Rightarrow> string \<Rightarrow> bool \<Rightarrow> random_source \<Rightarrow> bool \<times> random_source" where
  "shouldDegrade chance raw already rnd0 =
     (let lower = toLowerCase raw;
          explicit = list_ex (\<lambda>t. includes_str lower t) MAGGOT_TRIGGERS;
          byTrigger = (\<not> already \<and> explicit)
      in if \<not> already \<and> \<not> explicit
         then (let (r, rnd1) = draw rnd0
               in if r < chance
                  then (if length raw > 10 \<and> \<not> startsWith raw ''!'' then True else byTrigger, rnd1)
                  else (byTrigger, rnd1))
         else (byTrigger, rnd0))"

text \<open>
  \<^verbatim>\<open>DEGRADE_NAMES[Math.floor(r * DEGRADE_NAMES.length)] || "maggot"\<close>.
\<close>

definition pickNick :: "rat \<Rightarrow> string" where
  "pickNick r =
     (let i = \<lfloor>r * of_nat (length DEGRADE_NAMES)\<rfloor>
      in if 0 \<le> i \<and> i < int (length DEGRADE_NAMES) \<and> DEGRADE_NAMES ! nat i \<noteq> []
         then DEGRADE_NAMES ! nat i else ''maggot'')"

text \<open>
  The check of the \<^verbatim>\<open>MessageCreate\<close> handler that a flagged author keeps the
  nickname: the current nickname, when there is one, is compared with the fixed string
  \<^verbatim>\<open>"maggot"\<close>, and that string is what is set.
\<close>

definition reapplyOnMessage :: "maggots \<Rightarrow> message \<Rightarrow> env \<Rightarrow> action list" where
  "reapplyOnMessage maggots message e =
     (case (if msg_guild message then msg_member message else None) of
        None \<Rightarrow> []
      | Some m \<Rightarrow>
          if has maggots (msg_author_id message)
          then (case nickname m of
                  None \<Rightarrow> []
                | Some currentNick \<Rightarrow>
                    if currentNick \<noteq> [] \<and> toLowerCase currentNick \<noteq> ''maggot''
                    then SetNickname (member_id m) (Some ''maggot'')
                         # (if nick_ok e then []
                            else [Warn (''Could not reapply maggot nickname for ''
                                        @ msg_author_id message)])
                    else [])
          else [])"

text \<open>
  The \<^verbatim>\<open>MessageCreate\<close> handler up to the response gate: the new flag set, the
  actions, the random source that is left, and whether the handler goes on to the response
  gate (it returns early for a bot, for a command and after an assignment).
\<close>

definition onMessageCreate ::
  "config \<Rightarrow> maggots \<Rightarrow> message \<Rightarrow> env \<Rightarrow> maggots \<times> action list \<times> random_source \<times> bool" where
  "onMessageCreate cfg maggots message e =
     (if msg_author_bot message then (maggots, [], rnd e, False)
      else (let raw = trim (msg_content message)
            in if startsWith raw ''!''
               then (let (mg, acts) = handleCommand cfg maggots message (drop 1 raw) e
                     in (mg, acts, rnd e, False))
               else (case (if msg_guild message then msg_member message else None) of
                       None \<Rightarrow> (maggots, reapplyOnMessage maggots message e, rnd e, True)
                     | Some m \<Rightarrow>
                         (let already = has maggots (msg_author_id message);
                              (degrade, rnd1) = shouldDegrade (RANDOM_DEGRADE_CHANCE cfg) raw already (rnd e)
                          in if degrade
                             then (let (r, rnd2) = draw rnd1;
                                       nick = pickNick r;
                                       (mg, acts) = markMaggot maggots m (Some nick) e
                                   in (mg,
                                       acts @ [Reply (''Watch your tone, '' @ nick @ ''. Nickname updated.'')],
                                       rnd2, False))
                             else (maggots, reapplyOnMessage maggots message e, rnd1, True)))))"

text \<open>
  The \<^verbatim>\<open>GuildMemberUpdate\<close> handler: for a flagged member whose new nickname is set
  and differs, letter case aside, from the stored label, the stored label is set again.
  An entry whose label is empty counts as \<^verbatim>\<open>"maggot"\<close>.
\<close>

definition onGuildMemberUpdate :: "maggots \<Rightarrow> guild_member \<Rightarrow> env \<Rightarrow> action list" where
  "onGuildMemberUpdate maggots newMember e =
     (case map_of maggots (member_id newMember) of
        None \<Rightarrow> []
      | Some entry \<Rightarrow>
          (let desired = (if name entry \<noteq> [] then toLowerCase (name entry) else ''maggot'');
               current = (case nickname newMember of
                            None \<Rightarrow> None
                          | Some n \<Rightarrow> if n \<noteq> [] then Some (toLowerCase n) else None)
           in case current of
                None \<Rightarrow> []
              | Some c \<Rightarrow>
                  if c \<noteq> [] \<and> c \<noteq> desired
                  then SetNickname (member_id newMember)
                         (Some (if name entry \<noteq> [] then name entry else ''maggot''))
                       # (if nick_ok e then []
                          else [Warn (''Could not enforce maggot nickname for '' @ member_id newMember)])
                  else []))"

text \<open>The events that reach the moderation state machine, and a run over a sequence of them.\<close>

datatype event =
    MessageCreate message env
  | GuildMemberUpdate guild_member env

fun step :: "config \<Rightarrow> maggots \<Rightarrow> event \<Rightarrow> maggots" where
  "step cfg maggots (MessageCreate message e) = fst (onMessageCreate cfg maggots message e)"
| "step cfg maggots (GuildMemberUpdate newMember e) = maggots"

fun run :: "config \<Rightarrow> maggots \<Rightarrow> event list \<Rightarrow> maggots" where
  "run cfg maggots [] = maggots"
| "run cfg maggots (ev # evs) = run cfg (step cfg maggots ev) evs"

section \<open>Response gate\<close>

text \<open>
  \<open>shouldRespond\<close> with the table \<^verbatim>\<open>lastResponseByChannel\<close>, the clock and the
  random source as arguments; \<^verbatim>\<open>Math.random()\<close> is called only for a message of at
  least 15 characters that has no keyword and no question mark.
\<close>

definition keywords_list :: "string list" where
  "keywords_list = [''pickletooth'', ''pickle'', ''maj'', ''major'', ''sir'', ''task force reaper'',
               ''shadow company'', ''cube cult'', ''civil war'', ''tfr'', ''sc'', ''cube'']"

definition shouldRespond ::
  "config \<Rightarrow> (channel_id \<rightharpoonup> nat) \<Rightarrow> message \<Rightarrow> env \<Rightarrow> bool" where
  "shouldRespond cfg lastResponseByChannel message e =
     (let content = toLowerCase (msg_content message)
      in if msg_author_bot message then False
         else if list_ex (\<lambda>k. includes_str content k) keywords_list then True
         else if includes_str content ''?'' then True
         else if length content \<ge> 15 \<and> fst (draw (rnd e)) < RANDOM_CHIME_CHANCE cfg
         then (let last_at = (case lastResponseByChannel (msg_channel_id message) of
                                None \<Rightarrow> 0
                              | Some t \<Rightarrow> t)
               in int (now e) - int last_at > 10000)
         else False)"

section \<open>Generation\<close>

text \<open>
  What the generation backend does with a request: the call throws; it returns a value
  without a \<^verbatim>\<open>response.text\<close> function; that function throws; or it returns a text.
  The backend is a function of the instruction and the prompt it is given. The persona
  text and the catalogue of styles are parameters.
\<close>

datatype generation = GenThrows | GenNoText | GenTextThrows | GenText string

definition baseSystem :: "string \<Rightarrow> string \<Rightarrow> string \<Rightarrow> string" where
  "baseSystem MAJ_PERSONA manualLog styleOverride =
     (let logIntro = (if manualLog \<noteq> []
                      then [CHR 0x0A, CHR 0x0A] @ ''MANUAL LOG:'' @ [CHR 0x0A] @ manualLog
                           @ [CHR 0x0A, CHR 0x0A]
                      else []);
          style = (if styleOverride \<noteq> []
                   then [CHR 0x0A, CHR 0x0A] @ ''Additional style: '' @ styleOverride
                   else [])
      in MAJ_PERSONA @ style @ logIntro)"

definition join_lines :: "string list \<Rightarrow> string" where
  "join_lines ls = (case ls of [] \<Rightarrow> [] | l # rest \<Rightarrow> l @ concat (map (\<lambda>x. CHR 0x0A # x) rest))"

text \<open>
  The request \<open>respondWithIntel\<close> composes: the instruction with the style drawn for this
  call, and the prompt behind the lines of the channel's memory.
\<close>

definition composeRequest ::
  "string \<Rightarrow> (string \<times> string) list \<Rightarrow> string \<Rightarrow> int \<Rightarrow> turn list \<Rightarrow> string
     \<Rightarrow> random_source \<Rightarrow> string \<times> string" where
  "composeRequest MAJ_PERSONA PERSONA_STATES manualLog MAX_MEMORY_ENTRIES mem promptText rnd0 =
     (let i = \<lfloor>fst (draw rnd0) * of_nat (length PERSONA_STATES)\<rfloor>;
          style = (if 0 \<le> i \<and> i < int (length PERSONA_STATES)
                   then snd (PERSONA_STATES ! nat i) else []);
          memoryLines = (if mem \<noteq> []
                         then map (\<lambda>it. turn_speaker it @ '': '' @ turn_text it)
                                (slice_from (- MAX_MEMORY_ENTRIES) mem)
                         else []);
          memoryPrefix = (if memoryLines \<noteq> []
                          then ''Previous conversation:'' @ [CHR 0x0A] @ join_lines memoryLines
                               @ [CHR 0x0A, CHR 0x0A]
                          else []);
          fullPrompt = memoryPrefix @ promptText
      in (baseSystem MAJ_PERSONA manualLog style, fullPrompt))"

definition request_failed :: string where
  "request_failed = ''Gemini request failed. Check configuration.''"

definition no_response :: string where
  "no_response = ''I couldn'' @ [CHR 0x27] @ ''t formulate a response.''"

definition respondWithIntel ::
  "(string \<Rightarrow> string \<Rightarrow> generation) \<Rightarrow> string \<Rightarrow> (string \<times> string) list \<Rightarrow> string
     \<Rightarrow> int \<Rightarrow> turn list \<Rightarrow> string \<Rightarrow> random_source \<Rightarrow> string" where
  "respondWithIntel backend MAJ_PERSONA PERSONA_STATES manualLog MAX_MEMORY_ENTRIES mem promptText rnd0 =
     (let (instruction, fullPrompt) =
            composeRequest MAJ_PERSONA PERSONA_STATES manualLog MAX_MEMORY_ENTRIES mem promptText rnd0
      in case backend instruction fullPrompt of
           GenThrows \<Rightarrow> request_failed
         | GenTextThrows \<Rightarrow> request_failed
         | GenNoText \<Rightarrow> no_response
         | GenText out \<Rightarrow>
             (let trimmed = trim out
              in if trimmed \<noteq> [] then trimmed else no_response))"

section \<open>Properties of the persistent store\<close>

lemma tmp_path_differs: "filePath @ ''.tmp'' \<noteq> (filePath :: path)"
  by simp

lemma writeJsonAtomic_result:
  "writeJsonAtomic stringify disk p obj =
     Some ((disk(p @ ''.tmp'' := None))(p \<mapsto> stringify obj))"
  by (simp add: writeJsonAtomic_def renameSync_def writeFileSync_def Let_def)

lemma writeJsonAtomic_trace_unfold:
  "writeJsonAtomic_trace stringify disk p obj =
     (disk # writeFileSync_trace disk (p @ ''.tmp'') (stringify obj))
     @ [(disk(p @ ''.tmp'' := None))(p \<mapsto> stringify obj)]"
  by (simp add: writeJsonAtomic_trace_def writeJsonAtomic_result Let_def)

lemma writeFileSync_trace_elsewhere:
  assumes "d \<in> set (writeFileSync_trace disk q content)" and "q \<noteq> p"
  shows "d p = disk p"
  using assms by (auto simp: writeFileSync_trace_def)

text \<open>
  C8. Saving a value whose serialisation parses back to it (a JSON-representable value) and
  loading the file again gives that value. While the save runs, every state of the disk
  before the rename holds at the committed path what it held before the call, so a reader
  of the committed file sees the old document or the complete new one, never a part of one.
\<close>

theorem writeJsonAtomic_roundtrip:
  assumes "parse (stringify v) = Some v"
  shows "\<exists>disk'. writeJsonAtomic stringify disk p v = Some disk'
           \<and> readJsonSafe parse disk' p fallback = v
           \<and> last (writeJsonAtomic_trace stringify disk p v) = disk'
           \<and> (\<forall>d \<in> set (butlast (writeJsonAtomic_trace stringify disk p v)).
                 d p = disk p \<and> readJsonSafe parse d p fallback = readJsonSafe parse disk p fallback)"
proof -
  let ?disk' = "(disk(p @ ''.tmp'' := None))(p \<mapsto> stringify v)"
  have committed: "writeJsonAtomic stringify disk p v = Some ?disk'"
    by (rule writeJsonAtomic_result)
  have loaded: "readJsonSafe parse ?disk' p fallback = v"
    using assms by (simp add: readJsonSafe_def)
  have final: "last (writeJsonAtomic_trace stringify disk p v) = ?disk'"
    by (simp add: writeJsonAtomic_trace_unfold)
  have before: "d p = disk p \<and> readJsonSafe parse d p fallback = readJsonSafe parse disk p fallback"
    if "d \<in> set (butlast (writeJsonAtomic_trace stringify disk p v))" for d
  proof -
    from that have "d = disk \<or> d \<in> set (writeFileSync_trace disk (p @ ''.tmp'') (stringify v))"
      by (simp add: writeJsonAtomic_trace_unfold butlast_append)
    then have "d p = disk p"
    proof
      assume "d = disk"
      then show ?thesis by simp
    next
      assume "d \<in> set (writeFileSync_trace disk (p @ ''.tmp'') (stringify v))"
      then show ?thesis by (rule writeFileSync_trace_elsewhere) (rule tmp_path_differs)
    qed
    then show ?thesis by (simp add: readJsonSafe_def)
  qed
  show ?thesis
  proof (intro exI [of _ ?disk'] conjI ballI)
    show "writeJsonAtomic stringify disk p v = Some ?disk'" by (rule committed)
    show "readJsonSafe parse ?disk' p fallback = v" by (rule loaded)
    show "last (writeJsonAtomic_trace stringify disk p v) = ?disk'" by (rule final)
    show "d p = disk p"
      if "d \<in> set (butlast (writeJsonAtomic_trace stringify disk p v))" for d
      using before [OF that] by simp
    show "readJsonSafe parse d p fallback = readJsonSafe parse disk p fallback"
      if "d \<in> set (butlast (writeJsonAtomic_trace stringify disk p v))" for d
      using before [OF that] by simp
  qed
qed

theorem writeJsonAtomic_roundtrip_witness:
  "(\<exists>disk'. writeJsonAtomic (\<lambda>v. v) [''data/aliases.json'' \<mapsto> ''{}''] ''data/aliases.json'' ''{\"1\": \"Ace\"}''
              = Some disk'
      \<and> readJsonSafe Some disk' ''data/aliases.json'' ''{}'' = ''{\"1\": \"Ace\"}'')
   \<and> length (writeJsonAtomic_trace (\<lambda>v. v) [''data/aliases.json'' \<mapsto> ''{}''] ''data/aliases.json'' ''ab'') = 5"
  using writeJsonAtomic_roundtrip [of Some "\<lambda>v. v" "''{\"1\": \"Ace\"}''"
      "[''data/aliases.json'' \<mapsto> ''{}'']" "''data/aliases.json''" "''{}''"]
  by (auto simp: writeJsonAtomic_trace_unfold writeFileSync_trace_def)

section \<open>Properties of the conversation memory\<close>

lemma slice_from_neg: "0 < M \<Longrightarrow> slice_from (- M) xs = lastn (nat M) xs"
  by (auto simp: slice_from_def lastn_def Let_def max_def intro!: arg_cong2[where f=drop])

text \<open>
  A bound of zero does not trim: \<^verbatim>\<open>slice(-0)\<close> is the whole array. The bound below is
  therefore stated for a positive \<open>MAX_MEMORY_ENTRIES\<close>, which the default of 14 is.
\<close>

lemma slice_from_zero: "slice_from (- 0) xs = xs"
  by (simp add: slice_from_def)

lemma lastn_all: "length xs \<le> n \<Longrightarrow> lastn n xs = xs"
  by (simp add: lastn_def)

lemma length_lastn: "length (lastn n xs) = min n (length xs)"
  by (auto simp: lastn_def)

lemma lastn_lastn_append: "lastn n (lastn n xs @ ys) = lastn n (xs @ ys)"
proof (cases "length xs \<le> n")
  case True
  then show ?thesis by (simp add: lastn_def)
next
  case False
  then have "length xs - n + n = length xs" by simp
  with False show ?thesis by (simp add: lastn_def add.commute)
qed

lemma appendToMemory_returns:
  "\<exists>st'. appendToMemory stringify M st c s t = Some st'"
  by (simp add: appendToMemory_def saveMemory_def writeJsonAtomic_result Let_def)

lemma getMemory_appendToMemory_other:
  assumes "appendToMemory stringify M st c s t = Some st'" and "c' \<noteq> c"
  shows "getMemory st' c' = getMemory st c'"
  using assms
  by (auto simp: appendToMemory_def saveMemory_def writeJsonAtomic_result Let_def getMemory_def)

lemma getMemory_appendToMemory:
  assumes "0 < M" and "appendToMemory stringify M st c s t = Some st'"
  shows "getMemory st' c' =
           (if c' = c then lastn (nat M) (getMemory st c @ [\<lparr>turn_speaker = s, turn_text = t\<rparr>])
            else getMemory st c')"
  using assms
  by (auto simp: appendToMemory_def saveMemory_def writeJsonAtomic_result Let_def
        getMemory_def slice_from_neg lastn_all)

lemma appendAll_memory:
  assumes "0 < M"
  shows "\<exists>st'. appendAll stringify M st calls = Some st' \<and>
           getMemory st' c = (if turns_for c calls = [] then getMemory st c
                              else lastn (nat M) (getMemory st c @ turns_for c calls))"
proof (induction calls arbitrary: st)
  case Nil
  then show ?case by simp
next
  case (Cons call calls)
  obtain c' s t where call: "call = (c', s, t)" by (cases call) auto
  obtain st1 where st1: "appendToMemory stringify M st c' s t = Some st1"
    using appendToMemory_returns by blast
  have m1: "getMemory st1 c =
      (if c = c' then lastn (nat M) (getMemory st c @ [\<lparr>turn_speaker = s, turn_text = t\<rparr>])
       else getMemory st c)"
    using getMemory_appendToMemory [OF assms st1, of c] by simp
  from Cons.IH [of st1] obtain st' where
    run: "appendAll stringify M st1 calls = Some st'" and
    mem: "getMemory st' c = (if turns_for c calls = [] then getMemory st1 c
                              else lastn (nat M) (getMemory st1 c @ turns_for c calls))"
    by blast
  have "appendAll stringify M st (call # calls) = Some st'"
    by (simp add: call st1 run)
  moreover have "getMemory st' c =
      (if turns_for c (call # calls) = [] then getMemory st c
       else lastn (nat M) (getMemory st c @ turns_for c (call # calls)))"
    using mem m1 by (auto simp: call lastn_lastn_append)
  ultimately show ?case by blast
qed

text \<open>
  C3. With a positive \<open>MAX_MEMORY_ENTRIES\<close>, any finite sequence of \<open>appendToMemory\<close>
  calls runs to its end, and for every channel: a channel the sequence appended to holds
  the last \<open>MAX_MEMORY_ENTRIES\<close> turns of its earlier contents followed by the appended
  turns, in arrival order, which are at most \<open>MAX_MEMORY_ENTRIES\<close> turns; a channel it did
  not append to is unchanged. From the empty store the retained turns are therefore the
  most recently appended ones, and no channel exceeds the bound. As the sequence is
  arbitrary, this holds after each call.
\<close>

theorem appendToMemory_bounded_fifo:
  assumes "0 < MAX_MEMORY_ENTRIES"
  shows "\<exists>st'. appendAll stringify MAX_MEMORY_ENTRIES st calls = Some st'
           \<and> getMemory st' c =
               (if turns_for c calls = [] then getMemory st c
                else lastn (nat MAX_MEMORY_ENTRIES) (getMemory st c @ turns_for c calls))
           \<and> (turns_for c calls \<noteq> [] \<or> int (length (getMemory st c)) \<le> MAX_MEMORY_ENTRIES
                \<longrightarrow> int (length (getMemory st' c)) \<le> MAX_MEMORY_ENTRIES)"
proof -
  from appendAll_memory [OF assms, of stringify st calls c] obtain st' where
    run: "appendAll stringify MAX_MEMORY_ENTRIES st calls = Some st'" and
    mem: "getMemory st' c =
            (if turns_for c calls = [] then getMemory st c
             else lastn (nat MAX_MEMORY_ENTRIES) (getMemory st c @ turns_for c calls))"
    by blast
  have "int (length (getMemory st' c)) \<le> MAX_MEMORY_ENTRIES"
    if "turns_for c calls \<noteq> [] \<or> int (length (getMemory st c)) \<le> MAX_MEMORY_ENTRIES"
  proof (cases "turns_for c calls = []")
    case True
    with that mem show ?thesis by simp
  next
    case False
    with mem have "length (getMemory st' c) \<le> nat MAX_MEMORY_ENTRIES"
      by (simp add: length_lastn)
    with assms show ?thesis by linarith
  qed
  with run mem show ?thesis by blast
qed

theorem appendToMemory_bounded_fifo_witness:
  "(0::int) < 2 \<and>
   (\<exists>st'. appendAll (\<lambda>m. ''{}'') 2 \<lparr>memoryMap = Map.empty, files = Map.empty\<rparr>
             [(7, ''Ace'', ''one''), (9, ''Bo'', ''x''), (7, ''Ace'', ''two''), (7, ''Maj'', ''three'')]
             = Some st'
      \<and> getMemory st' 7 = [\<lparr>turn_speaker = ''Ace'', turn_text = ''two''\<rparr>,
                             \<lparr>turn_speaker = ''Maj'', turn_text = ''three''\<rparr>]
      \<and> int (length (getMemory st' 7)) \<le> 2)"
  using appendToMemory_bounded_fifo [of 2 "\<lambda>m. ''{}''"
      "\<lparr>memoryMap = Map.empty, files = Map.empty\<rparr>"
      "[(7, ''Ace'', ''one''), (9, ''Bo'', ''x''), (7, ''Ace'', ''two''), (7, ''Maj'', ''three'')]" 7]
  by (auto simp: getMemory_def lastn_def)

text \<open>
  C10. A call of \<open>appendToMemory\<close> returns (the rename inside \<open>saveMemory\<close> finds the
  temporary file it has just written, so no branch of the call throws), and it leaves the
  memory of every channel other than the one it appends to as it was.
\<close>

theorem appendToMemory_frame:
  "\<exists>st'. appendToMemory stringify MAX_MEMORY_ENTRIES st channelId speaker text_in = Some st'
     \<and> (\<forall>c'. c' \<noteq> channelId \<longrightarrow> getMemory st' c' = getMemory st c')"
  using appendToMemory_returns getMemory_appendToMemory_other by metis

theorem appendToMemory_frame_witness:
  "\<exists>st'. appendToMemory (\<lambda>m. ''{}'') 14
            \<lparr>memoryMap = [9 \<mapsto> [\<lparr>turn_speaker = ''Bo'', turn_text = ''x''\<rparr>]], files = Map.empty\<rparr>
            7 ''Ace'' ''one'' = Some st'
     \<and> (9::nat) \<noteq> 7
     \<and> getMemory st' 9 = [\<lparr>turn_speaker = ''Bo'', turn_text = ''x''\<rparr>]"
  using appendToMemory_frame [of "\<lambda>m. ''{}''" 14
      "\<lparr>memoryMap = [9 \<mapsto> [\<lparr>turn_speaker = ''Bo'', turn_text = ''x''\<rparr>]], files = Map.empty\<rparr>"
      7 "''Ace''" "''one''"]
  by (auto simp: getMemory_def)

section \<open>Properties of the response gate\<close>

lemma includes_str_single: "includes_str s [c] \<longleftrightarrow> c \<in> set s"
  by (induction s) auto

lemma toLowerChar_question: "toLowerChar c = CHR ''?'' \<longleftrightarrow> c = CHR ''?''"
  by (auto simp: toLowerChar_def split: if_splits)

lemma question_toLowerCase: "includes_str (toLowerCase s) ''?'' \<longleftrightarrow> includes_str s ''?''"
proof -
  have "CHR ''?'' \<in> toLowerChar ` set s \<longleftrightarrow> CHR ''?'' \<in> set s"
  proof
    assume "CHR ''?'' \<in> toLowerChar ` set s"
    then obtain c where "c \<in> set s" and "toLowerChar c = CHR ''?''" by auto
    then show "CHR ''?'' \<in> set s" by (simp add: toLowerChar_question)
  next
    assume "CHR ''?'' \<in> set s"
    moreover have "toLowerChar CHR ''?'' = CHR ''?''" by (simp add: toLowerChar_question)
    ultimately show "CHR ''?'' \<in> toLowerChar ` set s" by force
  qed
  then show ?thesis by (simp add: includes_str_single toLowerCase_def)
qed

text \<open>
  C7, as the code has it. The check of the author comes first in \<open>shouldRespond\<close>: a
  message of an automated account is never answered, whatever it contains, and a message of
  any other author that contains a question mark is always answered, whatever its length
  and its other contents.
\<close>

theorem shouldRespond_question_or_bot:
  "(msg_author_bot message \<longrightarrow> \<not> shouldRespond cfg lastResponseByChannel message e)
   \<and> (\<not> msg_author_bot message \<and> includes_str (msg_content message) ''?''
        \<longrightarrow> shouldRespond cfg lastResponseByChannel message e)"
  by (simp add: shouldRespond_def Let_def question_toLowerCase)

theorem shouldRespond_question_or_bot_witness:
  "shouldRespond \<lparr>CREATOR_ID = ''42'', RANDOM_DEGRADE_CHANCE = 5 / 100, RANDOM_CHIME_CHANCE = 15 / 100\<rparr>
         Map.empty
         \<lparr>msg_author_id = ''7'', msg_author_bot = False, msg_content = ''ok?'',
          msg_channel_id = 1, msg_guild = True, msg_member = None\<rparr>
         \<lparr>rnd = (\<lambda>i. 0), now = 20000, nick_ok = True, fetch_ok = True\<rparr>
   \<and> \<not> shouldRespond \<lparr>CREATOR_ID = ''42'', RANDOM_DEGRADE_CHANCE = 5 / 100, RANDOM_CHIME_CHANCE = 15 / 100\<rparr>
         Map.empty
         \<lparr>msg_author_id = ''99'', msg_author_bot = True, msg_content = ''major pickletooth'',
          msg_channel_id = 1, msg_guild = True, msg_member = None\<rparr>
         \<lparr>rnd = (\<lambda>i. 0), now = 20000, nick_ok = True, fetch_ok = True\<rparr>"
  using shouldRespond_question_or_bot [of
      "\<lparr>msg_author_id = ''7'', msg_author_bot = False, msg_content = ''ok?'',
          msg_channel_id = 1, msg_guild = True, msg_member = None\<rparr>"
      "\<lparr>CREATOR_ID = ''42'', RANDOM_DEGRADE_CHANCE = 5 / 100, RANDOM_CHIME_CHANCE = 15 / 100\<rparr>"
      Map.empty "\<lparr>rnd = (\<lambda>i. 0), now = 20000, nick_ok = True, fetch_ok = True\<rparr>"]
    shouldRespond_question_or_bot [of
      "\<lparr>msg_author_id = ''99'', msg_author_bot = True, msg_content = ''major pickletooth'',
          msg_channel_id = 1, msg_guild = True, msg_member = None\<rparr>"
      "\<lparr>CREATOR_ID = ''42'', RANDOM_DEGRADE_CHANCE = 5 / 100, RANDOM_CHIME_CHANCE = 15 / 100\<rparr>"
      Map.empty "\<lparr>rnd = (\<lambda>i. 0), now = 20000, nick_ok = True, fetch_ok = True\<rparr>"]
  by simp

text \<open>
  C7 as stated asks for \<open>True\<close> on every message with a question mark: a message of an
  automated account that contains one is refused.
\<close>

theorem shouldRespond_question_bot_counterexample:
  "includes_str ''what?'' ''?''
   \<and> \<not> shouldRespond \<lparr>CREATOR_ID = ''42'', RANDOM_DEGRADE_CHANCE = 5 / 100, RANDOM_CHIME_CHANCE = 15 / 100\<rparr>
         Map.empty
         \<lparr>msg_author_id = ''99'', msg_author_bot = True, msg_content = ''what?'',
          msg_channel_id = 1, msg_guild = True, msg_member = None\<rparr>
         \<lparr>rnd = (\<lambda>i. 0), now = 20000, nick_ok = True, fetch_ok = True\<rparr>"
  by (simp add: shouldRespond_def)

section \<open>Properties of generation\<close>

lemma respondWithIntel_cases:
  "respondWithIntel backend P S l M mem prompt rnd0 =
     (case backend (fst (composeRequest P S l M mem prompt rnd0)) (snd (composeRequest P S l M mem prompt rnd0)) of
           GenThrows \<Rightarrow> request_failed
         | GenTextThrows \<Rightarrow> request_failed
         | GenNoText \<Rightarrow> no_response
         | GenText out \<Rightarrow> if trim out \<noteq> [] then trim out else no_response)"
  by (simp add: respondWithIntel_def Let_def split: prod.splits generation.splits)

lemma request_failed_nonempty: "request_failed \<noteq> []"
  by (simp add: request_failed_def)

lemma no_response_nonempty: "no_response \<noteq> []"
  by (simp add: no_response_def)

text \<open>
  C9. Whatever the backend does with the request, \<open>respondWithIntel\<close> returns a string
  that is not empty: the fixed message \<open>request_failed\<close> when the call or the reading of
  its text throws, the fixed message \<open>no_response\<close> when there is no text or only white
  space, and the trimmed text otherwise. No outcome of the backend leaves the function as
  an exception.
\<close>

theorem respondWithIntel_fallback:
  "let request = composeRequest MAJ_PERSONA PERSONA_STATES manualLog MAX_MEMORY_ENTRIES mem promptText rnd0;
       outcome = backend (fst request) (snd request);
       reply = respondWithIntel backend MAJ_PERSONA PERSONA_STATES manualLog MAX_MEMORY_ENTRIES mem promptText rnd0
   in reply \<noteq> []
      \<and> (outcome = GenThrows \<or> outcome = GenTextThrows \<longrightarrow> reply = request_failed)
      \<and> (outcome = GenNoText \<or> (\<exists>out. outcome = GenText out \<and> trim out = [])
           \<longrightarrow> reply = no_response)
      \<and> (\<forall>out. outcome = GenText out \<and> trim out \<noteq> [] \<longrightarrow> reply = trim out)"
  by (auto simp: Let_def respondWithIntel_cases request_failed_nonempty no_response_nonempty
        split: generation.splits)

theorem respondWithIntel_fallback_witness:
  "respondWithIntel (\<lambda>instruction prompt. GenThrows) ''persona'' [(''witty'', ''be witty'')] [] 14 [] ''hi'' (\<lambda>i. 0)
     = ''Gemini request failed. Check configuration.''
   \<and> respondWithIntel (\<lambda>instruction prompt. GenText ''  '') ''persona'' [(''witty'', ''be witty'')] [] 14 [] ''hi'' (\<lambda>i. 0)
     = no_response
   \<and> respondWithIntel (\<lambda>instruction prompt. GenText '' Copy. '') ''persona'' [(''witty'', ''be witty'')] [] 14 [] ''hi'' (\<lambda>i. 0)
     = ''Copy.''"
  using respondWithIntel_fallback [of "''persona''" "[(''witty'', ''be witty'')]" "[]" 14 "[]" "''hi''" "\<lambda>i. 0" "\<lambda>instruction prompt. GenThrows"]
    respondWithIntel_fallback [of "''persona''" "[(''witty'', ''be witty'')]" "[]" 14 "[]" "''hi''" "\<lambda>i. 0" "\<lambda>instruction prompt. GenText ''  ''"]
    respondWithIntel_fallback [of "''persona''" "[(''witty'', ''be witty'')]" "[]" 14 "[]" "''hi''" "\<lambda>i. 0" "\<lambda>instruction prompt. GenText '' Copy. ''"]
  by (simp add: Let_def request_failed_def trim_def is_space_def)

section \<open>Properties of the moderation state machine\<close>

lemma has_update: "has (AList.update k v maggots) k' \<longleftrightarrow> k' = k \<or> has maggots k'"
  by (simp add: has_def update_conv')

lemma has_delete: "has (AList.delete k maggots) k' \<longleftrightarrow> k' \<noteq> k \<and> has maggots k'"
  by (simp add: has_def delete_conv')

lemma pickNick_half: "pickNick (1 / 2) = ''boot''"
proof -
  have "\<lfloor>(7::rat) / 2\<rfloor> = 3" by (simp add: floor_eq_iff)
  then show ?thesis by (simp add: pickNick_def DEGRADE_NAMES_def)
qed

text \<open>
  C1, as the code has it. For a member who is not flagged, \<open>markMaggot\<close> attempts the
  rename; when the rename succeeds the member is in the flag set with the label and the
  time, and when it throws the flag set is what it was and the member is still not flagged.
\<close>

theorem markMaggot_records_when_renamed:
  assumes "\<not> has maggots (member_id member)"
  shows "SetNickname (member_id member) (Some label) \<in> set (snd (markMaggot maggots member (Some label) e))
         \<and> (nick_ok e \<longrightarrow>
               map_of (fst (markMaggot maggots member (Some label) e)) (member_id member)
                 = Some \<lparr>name = label, at_time = now e\<rparr>)
         \<and> (\<not> nick_ok e \<longrightarrow> fst (markMaggot maggots member (Some label) e) = maggots
               \<and> \<not> has (fst (markMaggot maggots member (Some label) e)) (member_id member))"
  using assms by (simp add: markMaggot_def update_conv')

theorem markMaggot_records_when_renamed_witness:
  "\<not> has [] ''7''
   \<and> fst (markMaggot [] \<lparr>member_id = ''7'', nickname = None\<rparr> (Some ''worm'')
            \<lparr>rnd = (\<lambda>i. 0), now = 1000, nick_ok = True, fetch_ok = True\<rparr>)
       = [(''7'', \<lparr>name = ''worm'', at_time = 1000\<rparr>)]
   \<and> fst (markMaggot [] \<lparr>member_id = ''7'', nickname = None\<rparr> (Some ''worm'')
            \<lparr>rnd = (\<lambda>i. 0), now = 1000, nick_ok = False, fetch_ok = True\<rparr>)
       = []"
  using markMaggot_records_when_renamed [of "[]" "\<lparr>member_id = ''7'', nickname = None\<rparr>" "''worm''"
      "\<lparr>rnd = (\<lambda>i. 0), now = 1000, nick_ok = True, fetch_ok = True\<rparr>"]
    markMaggot_records_when_renamed [of "[]" "\<lparr>member_id = ''7'', nickname = None\<rparr>" "''worm''"
      "\<lparr>rnd = (\<lambda>i. 0), now = 1000, nick_ok = False, fetch_ok = True\<rparr>"]
  by (simp add: has_def markMaggot_def Let_def)

text \<open>
  C1 as stated has the flag recorded although the rename failed. With a rename that throws,
  \<open>markMaggot\<close> leaves the member out of the flag set, and so does the handler of a message
  with a trigger phrase, which replies all the same.
\<close>

theorem markMaggot_failed_rename_counterexample:
  "\<not> has [] ''7''
   \<and> \<not> has (fst (markMaggot [] \<lparr>member_id = ''7'', nickname = None\<rparr> (Some ''worm'')
                   \<lparr>rnd = (\<lambda>i. 0), now = 1000, nick_ok = False, fetch_ok = True\<rparr>)) ''7''
   \<and> onMessageCreate \<lparr>CREATOR_ID = ''42'', RANDOM_DEGRADE_CHANCE = 5 / 100, RANDOM_CHIME_CHANCE = 15 / 100\<rparr>
        []
        \<lparr>msg_author_id = ''7'', msg_author_bot = False, msg_content = ''you are so worthless'',
         msg_channel_id = 1, msg_guild = True,
         msg_member = Some \<lparr>member_id = ''7'', nickname = None\<rparr>\<rparr>
        \<lparr>rnd = (\<lambda>i. 1 / 2), now = 1000, nick_ok = False, fetch_ok = True\<rparr>
      = ([],
         [SetNickname ''7'' (Some ''boot''), Warn ''Could not set nickname boot for 7'',
          Reply ''Watch your tone, boot. Nickname updated.''],
         (\<lambda>i. 1 / 2), False)"
  by (simp add: has_def markMaggot_def onMessageCreate_def shouldDegrade_def Let_def trim_def
        is_space_def toLowerCase_def toLowerChar_def MAGGOT_TRIGGERS_def draw_def pickNick_half)

text \<open>
  C2, as the code has it. On a rename notification for a flagged member whose entry has a
  label: when the new nickname is set and differs from the label, letter case aside, the
  label of the entry is set again, that string and no other; when the nickname is unset or
  equals the label up to letter case, nothing is done. On a message, nothing is done for an
  author who is not flagged or has no nickname.
\<close>

theorem onGuildMemberUpdate_reapplies_label:
  assumes "map_of maggots (member_id newMember) = Some entry" and "name entry \<noteq> []"
  shows "(\<forall>n. nickname newMember = Some n \<and> n \<noteq> [] \<and> toLowerCase n \<noteq> toLowerCase (name entry)
            \<longrightarrow> onGuildMemberUpdate maggots newMember e
                  = SetNickname (member_id newMember) (Some (name entry))
                    # (if nick_ok e then []
                       else [Warn (''Could not enforce maggot nickname for '' @ member_id newMember)]))
         \<and> (nickname newMember = None \<or> nickname newMember = Some []
              \<or> (\<exists>n. nickname newMember = Some n \<and> toLowerCase n = toLowerCase (name entry))
            \<longrightarrow> onGuildMemberUpdate maggots newMember e = [])
         \<and> (\<not> has maggots (msg_author_id message) \<or> msg_member message = None
              \<or> (\<exists>m. msg_member message = Some m \<and> nickname m = None)
            \<longrightarrow> reapplyOnMessage maggots message e = [])"
proof -
  have "reapplyOnMessage maggots message e = []"
    if "\<not> has maggots (msg_author_id message) \<or> msg_member message = None
        \<or> (\<exists>m. msg_member message = Some m \<and> nickname m = None)"
    using that by (auto simp: reapplyOnMessage_def split: option.splits)
  with assms show ?thesis
    by (auto simp: onGuildMemberUpdate_def Let_def toLowerCase_def)
qed

theorem onGuildMemberUpdate_reapplies_label_witness:
  "map_of [(''7'', \<lparr>name = ''worm'', at_time = 3\<rparr>)] ''7'' = Some \<lparr>name = ''worm'', at_time = 3\<rparr>
   \<and> toLowerCase ''Bob'' \<noteq> toLowerCase ''worm''
   \<and> onGuildMemberUpdate [(''7'', \<lparr>name = ''worm'', at_time = 3\<rparr>)]
         \<lparr>member_id = ''7'', nickname = Some ''Bob''\<rparr>
         \<lparr>rnd = (\<lambda>i. 0), now = 1000, nick_ok = True, fetch_ok = True\<rparr>
       = [SetNickname ''7'' (Some ''worm'')]
   \<and> onGuildMemberUpdate [(''7'', \<lparr>name = ''worm'', at_time = 3\<rparr>)]
         \<lparr>member_id = ''7'', nickname = None\<rparr>
         \<lparr>rnd = (\<lambda>i. 0), now = 1000, nick_ok = True, fetch_ok = True\<rparr>
       = []"
  using onGuildMemberUpdate_reapplies_label [of "[(''7'', \<lparr>name = ''worm'', at_time = 3\<rparr>)]"
      "\<lparr>member_id = ''7'', nickname = Some ''Bob''\<rparr>" "\<lparr>name = ''worm'', at_time = 3\<rparr>"
      "\<lparr>rnd = (\<lambda>i. 0), now = 1000, nick_ok = True, fetch_ok = True\<rparr>"]
    onGuildMemberUpdate_reapplies_label [of "[(''7'', \<lparr>name = ''worm'', at_time = 3\<rparr>)]"
      "\<lparr>member_id = ''7'', nickname = None\<rparr>" "\<lparr>name = ''worm'', at_time = 3\<rparr>"
      "\<lparr>rnd = (\<lambda>i. 0), now = 1000, nick_ok = True, fetch_ok = True\<rparr>"]
  by (simp add: toLowerCase_def toLowerChar_def)

text \<open>
  C2 as stated re-applies the label whenever the visible name differs from it. A new
  nickname that differs from the label in letter case only is left alone.
\<close>

theorem reapply_differing_name_counterexample:
  "map_of [(''7'', \<lparr>name = ''worm'', at_time = 3\<rparr>)] ''7'' = Some \<lparr>name = ''worm'', at_time = 3\<rparr>
   \<and> ''WORM'' \<noteq> ''worm''
   \<and> onGuildMemberUpdate [(''7'', \<lparr>name = ''worm'', at_time = 3\<rparr>)]
         \<lparr>member_id = ''7'', nickname = Some ''WORM''\<rparr>
         \<lparr>rnd = (\<lambda>i. 0), now = 1000, nick_ok = True, fetch_ok = True\<rparr>
       = []"
  by (simp add: onGuildMemberUpdate_def toLowerCase_def toLowerChar_def)

text \<open>
  The check on a message does not read the entry: whatever label is stored, the nickname is
  compared with \<^verbatim>\<open>"maggot"\<close> and set to \<^verbatim>\<open>"maggot"\<close>. A member flagged as
  \<^verbatim>\<open>worm\<close> who carries that nickname is renamed to \<^verbatim>\<open>maggot\<close> by the next
  message, where the handler of rename notifications would set \<^verbatim>\<open>worm\<close>.
\<close>

lemma reapplyOnMessage_shape:
  "reapplyOnMessage maggots message e = []
   \<or> (\<exists>m. msg_member message = Some m
          \<and> reapplyOnMessage maggots message e
              = SetNickname (member_id m) (Some ''maggot'')
                # (if nick_ok e then []
                   else [Warn (''Could not reapply maggot nickname for '' @ msg_author_id message)]))"
  by (simp add: reapplyOnMessage_def split: option.splits)

lemma reapplyOnMessage_label:
  assumes "SetNickname u l \<in> set (reapplyOnMessage maggots message e)"
  shows "l = Some ''maggot''"
proof (cases "nick_ok e")
  case True
  with assms reapplyOnMessage_shape [of maggots message e] show ?thesis by auto
next
  case False
  with assms reapplyOnMessage_shape [of maggots message e] show ?thesis by auto
qed

lemma reapplyOnMessage_example:
  "reapplyOnMessage [(''7'', \<lparr>name = ''worm'', at_time = 3\<rparr>)]
     \<lparr>msg_author_id = ''7'', msg_author_bot = False, msg_content = ''hello'',
      msg_channel_id = 1, msg_guild = True,
      msg_member = Some \<lparr>member_id = ''7'', nickname = Some ''worm''\<rparr>\<rparr>
     \<lparr>rnd = (\<lambda>i. 0), now = 1000, nick_ok = True, fetch_ok = True\<rparr>
   = [SetNickname ''7'' (Some ''maggot'')]"
  by (simp add: reapplyOnMessage_def has_def toLowerCase_def toLowerChar_def)

lemma split_ws_nonempty: "split_ws s \<noteq> []"
proof (induction s)
  case Nil
  show ?case by simp
next
  case (Cons c cs)
  show ?case
  proof (cases "is_space c")
    case False
    then show ?thesis by (simp split: list.split)
  next
    case True
    show ?thesis
    proof (cases cs)
      case Nil
      with True show ?thesis by simp
    next
      case (Cons d ds)
      have "split_ws (c # d # ds) = (if is_space d then split_ws (d # ds) else [] # split_ws (d # ds))"
        using True by (subst split_ws.simps(2)) simp
      with Cons Cons.IH show ?thesis by (simp del: split_ws.simps)
    qed
  qed
qed

lemma handleCommand_amnesty:
  assumes "split_ws (trim raw) = cmd # mention # others"
    and "toLowerCase cmd = ''amnesty'' \<or> toLowerCase cmd = ''forgive''"
    and "CREATOR_ID cfg \<noteq> []" and "msg_author_id message = CREATOR_ID cfg"
    and "match_mention mention = Some userId"
  shows "handleCommand cfg maggots message raw e =
           (if \<not> has maggots userId
            then (maggots, [Reply ''That user is not currently marked as a maggot.''])
            else (AList.delete userId maggots,
                  amnesty_reset message userId e
                  @ [Reply (''Amnesty granted to '' @ mention @ ''. They are no longer a maggot.'')]))"
  using assms(2)
proof
  assume "toLowerCase cmd = ''amnesty''"
  then show ?thesis
    using assms(1,3,4,5) by (simp add: handleCommand_def Let_def unmarkMaggot_def amnesty_reset_def)
next
  assume "toLowerCase cmd = ''forgive''"
  then show ?thesis
    using assms(1,3,4,5) by (simp add: handleCommand_def Let_def unmarkMaggot_def amnesty_reset_def)
qed

text \<open>
  C5. Let a command be \<^verbatim>\<open>amnesty\<close> or \<^verbatim>\<open>forgive\<close> in any letter case, sent by
  the creator, with a mention of a user as its first argument. If the user is flagged, the
  user is not flagged afterwards, whether or not the member could be fetched and the
  nickname reset; the entries of all other users stay, and the last action is the reply that
  grants amnesty. If the user is not flagged, the flag set is unchanged and the only action
  is the reply that says so. \<open>handleCommand\<close> has a result in both cases: the branch has no
  path that throws.
\<close>

theorem amnesty_clears_flag:
  assumes "split_ws (trim raw) = cmd # mention # others"
    and "toLowerCase cmd = ''amnesty'' \<or> toLowerCase cmd = ''forgive''"
    and "CREATOR_ID cfg \<noteq> []" and "msg_author_id message = CREATOR_ID cfg"
    and "match_mention mention = Some userId"
  shows "(has maggots userId \<longrightarrow>
            \<not> has (fst (handleCommand cfg maggots message raw e)) userId
            \<and> (\<forall>u. u \<noteq> userId \<longrightarrow>
                   map_of (fst (handleCommand cfg maggots message raw e)) u = map_of maggots u)
            \<and> last (snd (handleCommand cfg maggots message raw e))
                = Reply (''Amnesty granted to '' @ mention @ ''. They are no longer a maggot.''))
         \<and> (\<not> has maggots userId \<longrightarrow>
               handleCommand cfg maggots message raw e
                 = (maggots, [Reply ''That user is not currently marked as a maggot.'']))"
  by (simp add: handleCommand_amnesty [OF assms] has_delete delete_conv')

theorem amnesty_clears_flag_witness:
  "has [(''7'', \<lparr>name = ''worm'', at_time = 3\<rparr>)] ''7''
   \<and> handleCommand \<lparr>CREATOR_ID = ''42'', RANDOM_DEGRADE_CHANCE = 5 / 100, RANDOM_CHIME_CHANCE = 15 / 100\<rparr>
        [(''7'', \<lparr>name = ''worm'', at_time = 3\<rparr>)]
        \<lparr>msg_author_id = ''42'', msg_author_bot = False, msg_content = ''!amnesty <@7>'',
         msg_channel_id = 1, msg_guild = True, msg_member = None\<rparr>
        ''amnesty <@7>''
        \<lparr>rnd = (\<lambda>i. 0), now = 1000, nick_ok = False, fetch_ok = True\<rparr>
      = ([], [SetNickname ''7'' None, Warn ''Could not reset nickname for 7'',
              Reply ''Amnesty granted to <@7>. They are no longer a maggot.''])
   \<and> \<not> has [(''7'', \<lparr>name = ''worm'', at_time = 3\<rparr>)] ''8''
   \<and> handleCommand \<lparr>CREATOR_ID = ''42'', RANDOM_DEGRADE_CHANCE = 5 / 100, RANDOM_CHIME_CHANCE = 15 / 100\<rparr>
        [(''7'', \<lparr>name = ''worm'', at_time = 3\<rparr>)]
        \<lparr>msg_author_id = ''42'', msg_author_bot = False, msg_content = ''!Forgive <@!8>'',
         msg_channel_id = 1, msg_guild = True, msg_member = None\<rparr>
        ''Forgive <@!8>''
        \<lparr>rnd = (\<lambda>i. 0), now = 1000, nick_ok = True, fetch_ok = True\<rparr>
      = ([(''7'', \<lparr>name = ''worm'', at_time = 3\<rparr>)],
         [Reply ''That user is not currently marked as a maggot.''])"
proof -
  have s1: "split_ws (trim ''amnesty <@7>'') = [''amnesty'', ''<@7>'']"
    by (simp add: trim_def is_space_def)
  have s2: "split_ws (trim ''Forgive <@!8>'') = [''Forgive'', ''<@!8>'']"
    by (simp add: trim_def is_space_def)
  have l1: "toLowerCase ''amnesty'' = ''amnesty'' \<or> toLowerCase ''amnesty'' = ''forgive''"
    by (simp add: toLowerCase_def toLowerChar_def)
  have l2: "toLowerCase ''Forgive'' = ''amnesty'' \<or> toLowerCase ''Forgive'' = ''forgive''"
    by (simp add: toLowerCase_def toLowerChar_def)
  have m1: "match_mention ''<@7>'' = Some ''7''"
    by (simp add: match_mention_here_def is_digit_def)
  have m2: "match_mention ''<@!8>'' = Some ''8''"
    by (simp add: match_mention_here_def is_digit_def)
  let ?cfg = "\<lparr>CREATOR_ID = ''42'', RANDOM_DEGRADE_CHANCE = 5 / 100, RANDOM_CHIME_CHANCE = 15 / 100\<rparr>"
  have c1: "CREATOR_ID ?cfg \<noteq> []" by simp
  show ?thesis
    using amnesty_clears_flag [OF s1 l1 c1 _ m1,
        of "\<lparr>msg_author_id = ''42'', msg_author_bot = False, msg_content = ''!amnesty <@7>'',
         msg_channel_id = 1, msg_guild = True, msg_member = None\<rparr>"
        "[(''7'', \<lparr>name = ''worm'', at_time = 3\<rparr>)]"
        "\<lparr>rnd = (\<lambda>i. 0), now = 1000, nick_ok = False, fetch_ok = True\<rparr>"]
      amnesty_clears_flag [OF s2 l2 c1 _ m2,
        of "\<lparr>msg_author_id = ''42'', msg_author_bot = False, msg_content = ''!Forgive <@!8>'',
         msg_channel_id = 1, msg_guild = True, msg_member = None\<rparr>"
        "[(''7'', \<lparr>name = ''worm'', at_time = 3\<rparr>)]"
        "\<lparr>rnd = (\<lambda>i. 0), now = 1000, nick_ok = True, fetch_ok = True\<rparr>"]
    by (simp add: has_def handleCommand_def s1 s2 Let_def toLowerCase_def toLowerChar_def m1 m2 
          unmarkMaggot_def amnesty_reset_def del: split_ws.simps match_mention.simps)
qed

text \<open>\<open>includes_str\<close> is the substring test of \<^verbatim>\<open>String.prototype.includes\<close>.\<close>

lemma startsWith_iff: "startsWith s k \<longleftrightarrow> (\<exists>suf. s = k @ suf)"
  by (induction s k rule: startsWith.induct) auto

lemma includes_str_iff: "includes_str s k \<longleftrightarrow> (\<exists>pre suf. s = pre @ k @ suf)"
proof (induction s)
  case Nil
  show ?case by auto
next
  case (Cons c cs)
  have "(\<exists>pre suf. c # cs = pre @ k @ suf) \<longleftrightarrow>
        (\<exists>suf. c # cs = k @ suf) \<or> (\<exists>pre suf. cs = pre @ k @ suf)"
  proof
    assume "\<exists>pre suf. c # cs = pre @ k @ suf"
    then obtain pre suf where eq: "c # cs = pre @ k @ suf" by blast
    show "(\<exists>suf. c # cs = k @ suf) \<or> (\<exists>pre suf. cs = pre @ k @ suf)"
    proof (cases pre)
      case Nil
      with eq show ?thesis by auto
    next
      case (Cons p ps)
      with eq have "cs = ps @ k @ suf" by simp
      then show ?thesis by blast
    qed
  next
    assume "(\<exists>suf. c # cs = k @ suf) \<or> (\<exists>pre suf. cs = pre @ k @ suf)"
    then show "\<exists>pre suf. c # cs = pre @ k @ suf"
    proof
      assume "\<exists>suf. c # cs = k @ suf"
      then obtain suf where "c # cs = [] @ k @ suf" by auto
      then show ?thesis by blast
    next
      assume "\<exists>pre suf. cs = pre @ k @ suf"
      then obtain pre suf where "c # cs = (c # pre) @ k @ suf" by auto
      then show ?thesis by blast
    qed
  qed
  with Cons.IH show ?case by (simp add: startsWith_iff del: startsWith.simps)
qed

lemma shouldDegrade_explicit:
  assumes "\<not> already" and "\<exists>t \<in> set MAGGOT_TRIGGERS. includes_str (toLowerCase raw) t"
  shows "shouldDegrade chance raw already rnd0 = (True, rnd0)"
proof -
  from assms(2) have "list_ex (\<lambda>t. includes_str (toLowerCase raw) t) MAGGOT_TRIGGERS"
    by (simp add: list_ex_iff)
  with assms(1) show ?thesis by (simp add: shouldDegrade_def Let_def)
qed

lemma shouldDegrade_random:
  assumes "fst (shouldDegrade chance raw already rnd0)"
    and "\<not> (\<exists>t \<in> set MAGGOT_TRIGGERS. includes_str (toLowerCase raw) t)"
  shows "\<not> already \<and> length raw > 10 \<and> fst (draw rnd0) < chance
         \<and> snd (shouldDegrade chance raw already rnd0) = snd (draw rnd0)"
  using assms by (auto simp: shouldDegrade_def Let_def list_ex_iff split: prod.splits if_splits)

lemma shouldDegrade_unflagged:
  "fst (shouldDegrade chance raw already rnd0) \<Longrightarrow> \<not> already"
  by (auto simp: shouldDegrade_def Let_def split: prod.splits if_splits)

lemma onMessageCreate_explicit:
  assumes "\<not> msg_author_bot message" and "\<not> startsWith (trim (msg_content message)) ''!''"
    and "msg_guild message" and "msg_member message = Some m"
    and "\<not> has maggots (msg_author_id message)"
    and "\<exists>t \<in> set MAGGOT_TRIGGERS. includes_str (toLowerCase (trim (msg_content message))) t"
  shows "onMessageCreate cfg maggots message e =
           (fst (markMaggot maggots m (Some (pickNick (fst (draw (rnd e))))) e),
            snd (markMaggot maggots m (Some (pickNick (fst (draw (rnd e))))) e)
            @ [Reply (''Watch your tone, '' @ pickNick (fst (draw (rnd e))) @ ''. Nickname updated.'')],
            snd (draw (rnd e)), False)"
  using assms(1-4)
  by (simp add: onMessageCreate_def Let_def shouldDegrade_explicit [OF assms(5,6)]
        split: prod.splits)

text \<open>
  C6. The trigger phrases are looked for in the lower-cased text first. When one is found
  and the author is not flagged, the assignment is decided with the random source
  untouched: \<^verbatim>\<open>Math.random()\<close> is not called for the chance of a random assignment.
  An assignment without a trigger phrase needs an author who is not flagged, a text longer
  than 10 characters, and a random number below the configured chance, the one number the
  classification has consumed. In the handler, for a message of a guild member that is not a
  command, a matching phrase leads to the assignment, and the first random number of the
  event is the one that picks the label.
\<close>

theorem explicit_trigger_before_random:
  "(\<not> already \<and> (\<exists>t \<in> set MAGGOT_TRIGGERS. includes_str (toLowerCase raw) t)
      \<longrightarrow> shouldDegrade chance raw already rnd0 = (True, rnd0))
   \<and> (fst (shouldDegrade chance raw already rnd0)
        \<and> \<not> (\<exists>t \<in> set MAGGOT_TRIGGERS. includes_str (toLowerCase raw) t)
      \<longrightarrow> \<not> already \<and> length raw > 10 \<and> fst (draw rnd0) < chance
          \<and> snd (shouldDegrade chance raw already rnd0) = snd (draw rnd0))
   \<and> (\<not> msg_author_bot message \<and> \<not> startsWith (trim (msg_content message)) ''!''
        \<and> msg_guild message \<and> msg_member message = Some m
        \<and> \<not> has maggots (msg_author_id message)
        \<and> (\<exists>t \<in> set MAGGOT_TRIGGERS. includes_str (toLowerCase (trim (msg_content message))) t)
      \<longrightarrow> onMessageCreate cfg maggots message e =
           (fst (markMaggot maggots m (Some (pickNick (fst (draw (rnd e))))) e),
            snd (markMaggot maggots m (Some (pickNick (fst (draw (rnd e))))) e)
            @ [Reply (''Watch your tone, '' @ pickNick (fst (draw (rnd e))) @ ''. Nickname updated.'')],
            snd (draw (rnd e)), False))"
proof (intro conjI impI)
  assume "\<not> already \<and> (\<exists>t \<in> set MAGGOT_TRIGGERS. includes_str (toLowerCase raw) t)"
  then show "shouldDegrade chance raw already rnd0 = (True, rnd0)"
    by (simp add: shouldDegrade_explicit)
next
  assume a: "fst (shouldDegrade chance raw already rnd0)
        \<and> \<not> (\<exists>t \<in> set MAGGOT_TRIGGERS. includes_str (toLowerCase raw) t)"
  from a show "\<not> already" using shouldDegrade_random by blast
  from a show "length raw > 10" using shouldDegrade_random by blast
  from a show "fst (draw rnd0) < chance" using shouldDegrade_random by blast
  from a show "snd (shouldDegrade chance raw already rnd0) = snd (draw rnd0)"
    using shouldDegrade_random by blast
next
  assume "\<not> msg_author_bot message \<and> \<not> startsWith (trim (msg_content message)) ''!''
        \<and> msg_guild message \<and> msg_member message = Some m
        \<and> \<not> has maggots (msg_author_id message)
        \<and> (\<exists>t \<in> set MAGGOT_TRIGGERS. includes_str (toLowerCase (trim (msg_content message))) t)"
  then show "onMessageCreate cfg maggots message e =
           (fst (markMaggot maggots m (Some (pickNick (fst (draw (rnd e))))) e),
            snd (markMaggot maggots m (Some (pickNick (fst (draw (rnd e))))) e)
            @ [Reply (''Watch your tone, '' @ pickNick (fst (draw (rnd e))) @ ''. Nickname updated.'')],
            snd (draw (rnd e)), False)"
    by (intro onMessageCreate_explicit) simp_all
qed

theorem explicit_trigger_before_random_witness:
  "shouldDegrade (5 / 100) ''please STFU now'' False (\<lambda>i. 0) = (True, \<lambda>i. 0)
   \<and> \<not> (\<exists>t \<in> set MAGGOT_TRIGGERS. includes_str (toLowerCase ''hello there everyone'') t)
   \<and> shouldDegrade (5 / 100) ''hello there everyone'' False (\<lambda>i. 1 / 100) = (True, \<lambda>i. 1 / 100)
   \<and> length ''hello there everyone'' > 10
   \<and> shouldDegrade (5 / 100) ''hello'' False (\<lambda>i. 1 / 100) = (False, \<lambda>i. 1 / 100)"
proof -
  have t1: "\<exists>t \<in> set MAGGOT_TRIGGERS. includes_str (toLowerCase ''please STFU now'') t"
    by (simp add: MAGGOT_TRIGGERS_def toLowerCase_def toLowerChar_def)
  have t2: "\<not> (\<exists>t \<in> set MAGGOT_TRIGGERS. includes_str (toLowerCase ''hello there everyone'') t)"
    by (simp add: MAGGOT_TRIGGERS_def toLowerCase_def toLowerChar_def)
  have t3: "\<not> list_ex (\<lambda>t. includes_str (toLowerCase ''hello there everyone'') t) MAGGOT_TRIGGERS"
    using t2 by (simp add: list_ex_iff)
  have t4: "\<not> list_ex (\<lambda>t. includes_str (toLowerCase ''hello'') t) MAGGOT_TRIGGERS"
    by (simp add: list_ex_iff MAGGOT_TRIGGERS_def toLowerCase_def toLowerChar_def)
  have r2: "shouldDegrade (5 / 100) ''hello there everyone'' False (\<lambda>i. 1 / 100) = (True, \<lambda>i. 1 / 100)"
    using t3 by (simp add: shouldDegrade_def draw_def Let_def)
  have r3: "shouldDegrade (5 / 100) ''hello'' False (\<lambda>i. 1 / 100) = (False, \<lambda>i. 1 / 100)"
    using t4 by (simp add: shouldDegrade_def draw_def Let_def)
  show ?thesis
    using explicit_trigger_before_random [of False "''please STFU now''" "5 / 100" "\<lambda>i. 0"] t1 t2 r2 r3
    by simp
qed

lemma markMaggot_maggots:
  "fst (markMaggot maggots member label e) = maggots
   \<or> (\<not> has maggots (member_id member)
       \<and> (\<exists>v. fst (markMaggot maggots member label e) = AList.update (member_id member) v maggots))"
  by (auto simp: markMaggot_def Let_def)

lemma handleCommand_maggots:
  "fst (handleCommand cfg maggots message raw e) = maggots
   \<or> (\<exists>k. fst (handleCommand cfg maggots message raw e) = AList.delete k maggots)"
  by (auto simp: handleCommand_def Let_def unmarkMaggot_def split: list.splits option.splits)

lemma onMessageCreate_maggots:
  "fst (onMessageCreate cfg maggots message e) = maggots
   \<or> (\<exists>k v. \<not> has maggots k \<and> fst (onMessageCreate cfg maggots message e) = AList.update k v maggots)
   \<or> (\<exists>k. fst (onMessageCreate cfg maggots message e) = AList.delete k maggots)"
proof (cases "msg_author_bot message")
  case True
  then show ?thesis by (simp add: onMessageCreate_def)
next
  case False
  note nobot = this
  show ?thesis
  proof (cases "startsWith (trim (msg_content message)) ''!''")
    case True
    with nobot have "fst (onMessageCreate cfg maggots message e)
        = fst (handleCommand cfg maggots message (drop 1 (trim (msg_content message))) e)"
      by (simp add: onMessageCreate_def Let_def split: prod.splits)
    then show ?thesis
      using handleCommand_maggots [of cfg maggots message "drop 1 (trim (msg_content message))" e]
      by auto
  next
    case False
    note nocmd = this
    show ?thesis
    proof (cases "if msg_guild message then msg_member message else None")
      case None
      with nobot nocmd show ?thesis by (simp add: onMessageCreate_def Let_def)
    next
      case (Some m)
      obtain degrade rnd1 where sd: "shouldDegrade (RANDOM_DEGRADE_CHANCE cfg) (trim (msg_content message))
          (has maggots (msg_author_id message)) (rnd e) = (degrade, rnd1)"
        by (cases "shouldDegrade (RANDOM_DEGRADE_CHANCE cfg) (trim (msg_content message))
          (has maggots (msg_author_id message)) (rnd e)") auto
      show ?thesis
      proof (cases degrade)
        case False
        with nobot nocmd Some sd show ?thesis by (simp add: onMessageCreate_def Let_def)
      next
        case True
        with nobot nocmd Some sd have "fst (onMessageCreate cfg maggots message e)
            = fst (markMaggot maggots m (Some (pickNick (fst (draw rnd1)))) e)"
          by (simp add: onMessageCreate_def Let_def split: prod.splits)
        then show ?thesis
          using markMaggot_maggots [of maggots m "Some (pickNick (fst (draw rnd1)))" e] by auto
      qed
    qed
  qed
qed

lemma step_maggots:
  "step cfg maggots ev = maggots
   \<or> (\<exists>k v. \<not> has maggots k \<and> step cfg maggots ev = AList.update k v maggots)
   \<or> (\<exists>k. step cfg maggots ev = AList.delete k maggots)"
  using onMessageCreate_maggots by (cases ev) auto

lemma step_distinct:
  assumes "distinct (map fst maggots)"
  shows "distinct (map fst (step cfg maggots ev))"
  using step_maggots [of cfg maggots ev] assms
  by (auto simp: distinct_update distinct_delete)

lemma run_distinct:
  "distinct (map fst maggots) \<Longrightarrow> distinct (map fst (run cfg maggots evs))"
  by (induction evs arbitrary: maggots) (simp_all add: step_distinct)

lemma step_keeps_entry:
  assumes "map_of maggots u = Some entry" and "map_of (step cfg maggots ev) u = Some entry'"
  shows "entry' = entry"
  using step_maggots [of cfg maggots ev] assms
  by (auto simp: update_conv' delete_conv' has_def split: if_splits)

lemma distinct_keys_at_most_one:
  "distinct (map fst xs) \<Longrightarrow> length (filter (\<lambda>p. fst p = u) xs) \<le> 1"
proof (induction xs)
  case Nil
  show ?case by simp
next
  case (Cons x xs)
  show ?case
  proof (cases "fst x = u")
    case True
    from Cons.prems have "fst x \<notin> fst ` set xs" by simp
    with True have "\<forall>p \<in> set xs. fst p \<noteq> u" by blast
    then have "filter (\<lambda>p. fst p = u) xs = []"
      by (simp add: filter_empty_conv)
    with True show ?thesis by simp
  next
    case False
    with Cons show ?thesis by simp
  qed
qed

text \<open>
  C4. From the empty flag set of a fresh process, after any sequence of events (messages
  with or without a trigger phrase, with any random numbers, commands, amnesty among them,
  and rename notifications) no user has two entries. \<open>markMaggot\<close> on a member who is
  flagged changes nothing, and no single event replaces the entry of a user who is flagged
  before it and after it: a label changes only by amnesty followed by a new assignment.
\<close>

theorem flag_set_one_label_per_user:
  "distinct (map fst (run cfg [] evs))
   \<and> length (filter (\<lambda>p. fst p = u) (run cfg [] evs)) \<le> 1
   \<and> (has maggots (member_id member) \<longrightarrow> markMaggot maggots member label e = (maggots, []))
   \<and> (\<forall>entry entry'. map_of maggots u = Some entry \<and> map_of (step cfg maggots ev) u = Some entry'
         \<longrightarrow> entry' = entry)"
proof -
  have d: "distinct (map fst (run cfg [] evs))"
    by (rule run_distinct) simp
  have m: "markMaggot maggots member label e = (maggots, [])" if "has maggots (member_id member)"
    using that by (simp add: markMaggot_def)
  from d m distinct_keys_at_most_one [OF d] step_keeps_entry show ?thesis by blast
qed

theorem flag_set_one_label_per_user_witness:
  "run \<lparr>CREATOR_ID = ''42'', RANDOM_DEGRADE_CHANCE = 5 / 100, RANDOM_CHIME_CHANCE = 15 / 100\<rparr> []
     [MessageCreate
        \<lparr>msg_author_id = ''7'', msg_author_bot = False, msg_content = ''you are so worthless'',
         msg_channel_id = 1, msg_guild = True,
         msg_member = Some \<lparr>member_id = ''7'', nickname = None\<rparr>\<rparr>
        \<lparr>rnd = (\<lambda>i. 1 / 2), now = 1000, nick_ok = True, fetch_ok = True\<rparr>,
      MessageCreate
        \<lparr>msg_author_id = ''7'', msg_author_bot = False, msg_content = ''stfu'',
         msg_channel_id = 1, msg_guild = True,
         msg_member = Some \<lparr>member_id = ''7'', nickname = Some ''boot''\<rparr>\<rparr>
        \<lparr>rnd = (\<lambda>i. 0), now = 2000, nick_ok = True, fetch_ok = True\<rparr>]
     = [(''7'', \<lparr>name = ''boot'', at_time = 1000\<rparr>)]
   \<and> has [(''7'', \<lparr>name = ''boot'', at_time = 1000\<rparr>)] ''7''
   \<and> markMaggot [(''7'', \<lparr>name = ''boot'', at_time = 1000\<rparr>)] \<lparr>member_id = ''7'', nickname = Some ''boot''\<rparr>
         (Some ''maggot'') \<lparr>rnd = (\<lambda>i. 0), now = 2000, nick_ok = True, fetch_ok = True\<rparr>
       = ([(''7'', \<lparr>name = ''boot'', at_time = 1000\<rparr>)], [])"
proof -
  let ?cfg = "\<lparr>CREATOR_ID = ''42'', RANDOM_DEGRADE_CHANCE = 5 / 100, RANDOM_CHIME_CHANCE = 15 / 100\<rparr>"
  let ?m1 = "\<lparr>msg_author_id = ''7'', msg_author_bot = False, msg_content = ''you are so worthless'',
         msg_channel_id = 1, msg_guild = True,
         msg_member = Some \<lparr>member_id = ''7'', nickname = None\<rparr>\<rparr>"
  let ?e1 = "\<lparr>rnd = (\<lambda>i. 1 / 2), now = 1000, nick_ok = True, fetch_ok = True\<rparr>"
  let ?m2 = "\<lparr>msg_author_id = ''7'', msg_author_bot = False, msg_content = ''stfu'',
         msg_channel_id = 1, msg_guild = True,
         msg_member = Some \<lparr>member_id = ''7'', nickname = Some ''boot''\<rparr>\<rparr>"
  let ?e2 = "\<lparr>rnd = (\<lambda>i. 0), now = 2000, nick_ok = True, fetch_ok = True\<rparr>"
  let ?mg = "[(''7'', \<lparr>name = ''boot'', at_time = 1000\<rparr>)]"
  have s1: "step ?cfg [] (MessageCreate ?m1 ?e1) = ?mg"
    by (simp add: has_def markMaggot_def onMessageCreate_def shouldDegrade_def Let_def trim_def
          is_space_def toLowerCase_def toLowerChar_def MAGGOT_TRIGGERS_def draw_def pickNick_half)
  have s2: "step ?cfg ?mg (MessageCreate ?m2 ?e2) = ?mg"
    by (simp add: has_def onMessageCreate_def shouldDegrade_def Let_def trim_def
          is_space_def toLowerCase_def toLowerChar_def MAGGOT_TRIGGERS_def reapplyOnMessage_def)
  have r: "run ?cfg [] [MessageCreate ?m1 ?e1, MessageCreate ?m2 ?e2] = ?mg"
    by (simp only: run.simps s1 s2)
  have h: "has ?mg ''7''" by (simp add: has_def)
  show ?thesis
    using flag_set_one_label_per_user [of ?cfg "[MessageCreate ?m1 ?e1, MessageCreate ?m2 ?e2]" "''7''"
        ?mg "\<lparr>member_id = ''7'', nickname = Some ''boot''\<rparr>" "Some ''maggot''" ?e2
        "MessageCreate ?m2 ?e2"] r h
    by simp
qed

end
